theory Spec2Isabelle
  imports Main "HOL-Library.Word"
begin

section \<open>Shared vocabulary\<close>

text \<open>
  Go values that the two packages only pass around are kept opaque: an error is its
  message, a peer identity, a key and a certificate are strings, a resource scope
  (\<^verbatim>\<open>network.ConnManagementScope\<close>), a context and a relayed raw connection are handles.
\<close>

type_synonym error = string
type_synonym peer_ID = string
type_synonym pubKey = string
type_synonym privKey = string
type_synonym certificate = string
type_synonym ConnManagementScope = nat
type_synonym go_context = nat

datatype direction = DirUnknown | DirInbound | DirOutbound

text \<open>
  A multiaddress is its sequence of components, each a protocol code with a value.
  \<^verbatim>\<open>ValueForProtocol\<close> (go-multiaddr) returns the value of the first component with
  the given code, or the library's not-found error.
\<close>

type_synonym multiaddr = "(int \<times> string) list"

definition P_CIRCUIT :: int where
  "P_CIRCUIT = 290"

definition P_QUIC_V1 :: int where
  "P_QUIC_V1 = 461"

fun ValueForProtocol :: "multiaddr \<Rightarrow> int \<Rightarrow> error + string" where
  "ValueForProtocol [] code = Inl ''protocol not found in multiaddr''"
| "ValueForProtocol ((c, v) # m) code =
     (if c = code then Inr v else ValueForProtocol m code)"

text \<open>\<^verbatim>\<open>quic.Version\<close> is a 32-bit unsigned integer; version 1 is the number 1.\<close>

type_synonym version = "32 word"

definition Version1 :: version where
  "Version1 = 1"

section \<open>The QUIC listener (p2p/transport/quic/listener.go)\<close>

subsection \<open>Data\<close>

text \<open>
  What the listener reads from a \<^verbatim>\<open>*quic.Conn\<close>: the remote address (as the string
  \<^verbatim>\<open>RemoteAddr().String()\<close>), the negotiated version and the peer certificates of
  \<^verbatim>\<open>ConnectionState()\<close>, and its context.
\<close>

record qconn =
  qconnID :: nat
  RemoteAddr :: string
  Version :: version
  PeerCertificates :: "certificate list"
  Context :: go_context

text \<open>The \<^verbatim>\<open>conn\<close> struct built by \<^verbatim>\<open>wrapConnWithScope\<close> (the back pointer to the
  transport is left out).\<close>

record conn =
  quicConn :: qconn
  scope :: ConnManagementScope
  conn_localPeer :: peer_ID
  localMultiaddr :: multiaddr
  remoteMultiaddr :: multiaddr
  remotePeerID :: peer_ID
  remotePubKey :: pubKey

text \<open>The two close codes of \<^verbatim>\<open>core/network\<close> that the listener uses, by name.\<close>

datatype conn_error_code = ConnResourceLimitExceeded | ConnGated

record holePunchKey =
  addr :: string
  peer :: peer_ID

text \<open>
  Modelled from the spec: the declarations of the registry (the field
  \<^verbatim>\<open>holePunching\<close> of the transport, the type of its records and the creation of their
  channel) are not in listener.go, which shows only the fields \<^verbatim>\<open>connCh\<close> and
  \<^verbatim>\<open>fulfilled\<close>. By the spec a record that was marked fulfilled does not match again,
  so the registry maps a key to a shared record: the flag set at line 73 is seen by the
  next lookup. By the spec the channel is buffered, so that a send under the lock does
  not block: \<^verbatim>\<open>connCh\<close> is the sequence of connections sent on it so far, oldest first.
\<close>

record activeHolePunch =
  connCh :: "conn list"
  fulfilled :: bool

text \<open>
  Every call to a stateful collaborator is logged, in order, in a trace. A stateful
  collaborator (resource manager, scope, gater, relay dialer, upgrader) answers as a
  function of the trace so far, so that two calls with the same arguments may differ.
\<close>

datatype event =
    EvOpenConnection direction bool multiaddr
  | EvSetPeer ConnManagementScope peer_ID
  | EvDone ConnManagementScope
  | EvQuicCloseWithError qconn conn_error_code string
  | EvAddConn qconn conn
  | EvInterceptAccept conn
  | EvInterceptSecured direction peer_ID conn
  | EvConnCloseWithError conn conn_error_code string
  | EvChanSend holePunchKey conn
  | EvDial go_context multiaddr peer_ID
  | EvTagHop nat
  | EvUpgrade go_context nat direction peer_ID ConnManagementScope
  | EvUpgraderClosedRaw nat

text \<open>
  Functions of other packages that the listener calls. The first five are pure;
  \<^verbatim>\<open>SetPeer\<close> is the method of a scope.
\<close>

record externals =
  ToQuicMultiaddr :: "string \<Rightarrow> version \<Rightarrow> error + multiaddr"
  UnwrapConnManagementScope :: "go_context \<Rightarrow> error + ConnManagementScope option"
  PubKeyFromCertChain :: "certificate list \<Rightarrow> error + pubKey"
  IDFromPublicKey :: "pubKey \<Rightarrow> error + peer_ID"
  VersionString :: "version \<Rightarrow> string"
  SetPeer :: "event list \<Rightarrow> ConnManagementScope \<Rightarrow> peer_ID \<Rightarrow> error option"

record resourceManager =
  OpenConnection :: "event list \<Rightarrow> direction \<Rightarrow> bool \<Rightarrow> multiaddr \<Rightarrow> error + ConnManagementScope"

record connectionGater =
  InterceptAccept :: "event list \<Rightarrow> conn \<Rightarrow> bool"
  InterceptSecured :: "event list \<Rightarrow> direction \<Rightarrow> peer_ID \<Rightarrow> conn \<Rightarrow> bool"

record transport =
  gater :: "connectionGater option"

record quicreuseListener =
  Multiaddrs :: "multiaddr list"

record listener =
  reuseListener :: quicreuseListener
  transport :: transport
  rcmgr :: resourceManager
  privKey :: privKey
  localPeer :: peer_ID
  localMultiaddrs :: "version \<rightharpoonup> multiaddr"

subsection \<open>newListener\<close>


subsection \<open>wrapConnWithScope and wrapConn\<close>

definition wrapConnWithScope ::
  "externals \<Rightarrow> listener \<Rightarrow> qconn \<Rightarrow> ConnManagementScope \<Rightarrow> multiaddr \<Rightarrow> event list
     \<Rightarrow> (error + conn) \<times> event list" where
  "wrapConnWithScope ext l q connScope rma tr =
     (case PubKeyFromCertChain ext (PeerCertificates q) of
        Inl err \<Rightarrow> (Inl err, tr)
      | Inr pk \<Rightarrow>
          (case IDFromPublicKey ext pk of
             Inl err \<Rightarrow> (Inl err, tr)
           | Inr pid \<Rightarrow>
               (case SetPeer ext tr connScope pid of
                  Some err \<Rightarrow> (Inl err, tr @ [EvSetPeer connScope pid])
                | None \<Rightarrow>
                    (case localMultiaddrs l (Version q) of
                       None \<Rightarrow>
                         (Inl (''unknown QUIC version:'' @ VersionString ext (Version q)),
                          tr @ [EvSetPeer connScope pid])
                     | Some lma \<Rightarrow>
                         (Inr \<lparr>quicConn = q, scope = connScope, conn_localPeer = localPeer l,
                               localMultiaddr = lma, remoteMultiaddr = rma,
                               remotePeerID = pid, remotePubKey = pk\<rparr>,
                          tr @ [EvSetPeer connScope pid])))))"

text \<open>Lines 106 to 112 of wrapConn: wrap with the scope, release it on failure.\<close>

definition wrapConn_release ::
  "externals \<Rightarrow> listener \<Rightarrow> qconn \<Rightarrow> ConnManagementScope \<Rightarrow> multiaddr \<Rightarrow> event list
     \<Rightarrow> (error + conn) \<times> event list" where
  "wrapConn_release ext l q connScope rma tr =
     (case wrapConnWithScope ext l q connScope rma tr of
        (Inl err, tr') \<Rightarrow> (Inl err, tr' @ [EvDone connScope])
      | (Inr c, tr') \<Rightarrow> (Inr c, tr'))"

definition wrapConn ::
  "externals \<Rightarrow> listener \<Rightarrow> qconn \<Rightarrow> event list \<Rightarrow> (error + conn) \<times> event list" where
  "wrapConn ext l q tr =
     (case ToQuicMultiaddr ext (RemoteAddr q) (Version q) of
        Inl err \<Rightarrow> (Inl err, tr)
      | Inr rma \<Rightarrow>
          (case (case UnwrapConnManagementScope ext (Context q) of
                   Inl err \<Rightarrow> None
                 | Inr sc \<Rightarrow> sc) of
             None \<Rightarrow>
               (case OpenConnection (rcmgr l) tr DirInbound False rma of
                  Inl err \<Rightarrow> (Inl err, tr @ [EvOpenConnection DirInbound False rma])
                | Inr connScope \<Rightarrow>
                    wrapConn_release ext l q connScope rma
                      (tr @ [EvOpenConnection DirInbound False rma]))
           | Some connScope \<Rightarrow> wrapConn_release ext l q connScope rma tr))"

subsection \<open>Accept\<close>

text \<open>
  The mutable state of the transport that the accept loop touches: the trace of calls
  and the hole-punch registry (guarded by \<^verbatim>\<open>holePunchingMx\<close>, so one lookup, send and
  flag update is one step).
\<close>

record transportState =
  trace :: "event list"
  holePunching :: "holePunchKey \<rightharpoonup> activeHolePunch"

text \<open>Line 60: the condition under which the connection is gated, with the calls it
  makes (the second interception is asked only when the first one allows).\<close>

definition gated :: "transport \<Rightarrow> conn \<Rightarrow> event list \<Rightarrow> bool \<times> event list" where
  "gated t c tr =
     (case gater t of
        None \<Rightarrow> (False, tr)
      | Some g \<Rightarrow>
          (if InterceptAccept g tr c
           then (\<not> InterceptSecured g (tr @ [EvInterceptAccept c]) DirInbound (remotePeerID c) c,
                 tr @ [EvInterceptAccept c, EvInterceptSecured DirInbound (remotePeerID c) c])
           else (True, tr @ [EvInterceptAccept c])))"

text \<open>Lines 65 to 79: hand the connection to a pending hole punch, or return it.
  \<^verbatim>\<open>None\<close> stands for \<^verbatim>\<open>continue\<close>. A send appends to the channel and is logged.\<close>

definition holePunchOrReturn :: "qconn \<Rightarrow> conn \<Rightarrow> transportState \<Rightarrow> conn option \<times> transportState" where
  "holePunchOrReturn q c s =
     (let key = \<lparr>addr = RemoteAddr q, peer = remotePeerID c\<rparr> in
      case holePunching s key of
        None \<Rightarrow> (Some c, s)
      | Some hp \<Rightarrow>
          (if \<not> fulfilled hp
           then (None,
                 s\<lparr>trace := trace s @ [EvChanSend key c],
                   holePunching := (holePunching s)
                     (key \<mapsto> hp\<lparr>connCh := connCh hp @ [c], fulfilled := True\<rparr>)\<rparr>)
           else (Some c, s)))"

text \<open>Lines 53 to 79: the body of the loop for one raw session.\<close>

definition acceptConn ::
  "externals \<Rightarrow> listener \<Rightarrow> qconn \<Rightarrow> transportState \<Rightarrow> conn option \<times> transportState" where
  "acceptConn ext l q s =
     (case wrapConn ext l q (trace s) of
        (Inl err, tr1) \<Rightarrow>
          (None, s\<lparr>trace := tr1 @ [EvQuicCloseWithError q ConnResourceLimitExceeded []]\<rparr>)
      | (Inr c, tr1) \<Rightarrow>
          (case gated (transport l) c (tr1 @ [EvAddConn q c]) of
             (g, tr2) \<Rightarrow>
               (if g
                then (None, s\<lparr>trace := tr2 @ [EvConnCloseWithError c ConnGated ''connection gated'']\<rparr>)
                else holePunchOrReturn q c (s\<lparr>trace := tr2\<rparr>))))"

text \<open>
  The loop. Its input is what \<^verbatim>\<open>reuseListener.Accept\<close> will return, call after call;
  when nothing is left the call blocks. The result comes with the input not yet
  consumed and the new state.
\<close>

datatype rawAccept = RawAccepted qconn | RawAcceptError error

datatype acceptResult = Accepted conn | AcceptError error | AcceptBlocked

fun Accept ::
  "externals \<Rightarrow> listener \<Rightarrow> rawAccept list \<Rightarrow> transportState
     \<Rightarrow> acceptResult \<times> rawAccept list \<times> transportState" where
  "Accept ext l [] s = (AcceptBlocked, [], s)"
| "Accept ext l (RawAcceptError err # rest) s = (AcceptError err, rest, s)"
| "Accept ext l (RawAccepted q # rest) s =
     (case acceptConn ext l q s of
        (None, s') \<Rightarrow> Accept ext l rest s'
      | (Some c, s') \<Rightarrow> (Accepted c, rest, s'))"

section \<open>The relay client transport (p2p/protocol/circuitv2/client)\<close>

text \<open>
  The upgrader answers either with an error, and whether it closed the raw connection
  itself before returning, or with a connection, and whether that connection also
  offers \<^verbatim>\<open>network.ConnStat\<close> (what the type assertion of line 130 asks).

  Modelled from the spec: the type of the connection that \<^verbatim>\<open>Upgrade\<close> returns is
  declared outside these files. By the spec a Capable Connection owns the raw session
  and the scope it was built from, so it is kept as the arguments of the call.
\<close>

datatype upgradeResult = UpgradeError error bool | UpgradeOK bool

record upgradedConn =
  uc_ctx :: go_context
  uc_conn :: nat
  uc_dir :: direction
  uc_peer :: peer_ID
  uc_scope :: ConnManagementScope

datatype capableConn = CapableConn upgradedConn

record upgrader =
  Upgrade :: "event list \<Rightarrow> go_context \<Rightarrow> nat \<Rightarrow> direction \<Rightarrow> peer_ID \<Rightarrow> ConnManagementScope
                \<Rightarrow> upgradeResult"

record client =
  host_ResourceManager :: resourceManager
  dial :: "event list \<Rightarrow> go_context \<Rightarrow> multiaddr \<Rightarrow> peer_ID \<Rightarrow> error + nat"
  upgrader :: upgrader

datatype dialResult = DialConn capableConn | DialError error | DialPanic

definition SkipResolve :: "client \<Rightarrow> go_context \<Rightarrow> multiaddr \<Rightarrow> bool" where
  "SkipResolve c ctx a = True"

definition dialAndUpgrade ::
  "externals \<Rightarrow> client \<Rightarrow> go_context \<Rightarrow> multiaddr \<Rightarrow> peer_ID \<Rightarrow> ConnManagementScope \<Rightarrow> event list
     \<Rightarrow> dialResult \<times> event list" where
  "dialAndUpgrade ext c ctx a p connScope tr =
     (case SetPeer ext tr connScope p of
        Some err \<Rightarrow> (DialError err, tr @ [EvSetPeer connScope p])
      | None \<Rightarrow>
          (case dial c (tr @ [EvSetPeer connScope p]) ctx a p of
             Inl err \<Rightarrow> (DialError err, tr @ [EvSetPeer connScope p, EvDial ctx a p])
           | Inr rc \<Rightarrow>
               (case Upgrade (upgrader c) (tr @ [EvSetPeer connScope p, EvDial ctx a p, EvTagHop rc])
                       ctx rc DirOutbound p connScope of
                  UpgradeError err closed \<Rightarrow>
                    (DialError err,
                     tr @ [EvSetPeer connScope p, EvDial ctx a p, EvTagHop rc,
                           EvUpgrade ctx rc DirOutbound p connScope]
                        @ (if closed then [EvUpgraderClosedRaw rc] else []))
                | UpgradeOK stat \<Rightarrow>
                    (if stat
                     then DialConn (CapableConn \<lparr>uc_ctx = ctx, uc_conn = rc, uc_dir = DirOutbound,
                                                 uc_peer = p, uc_scope = connScope\<rparr>)
                     else DialPanic,
                     tr @ [EvSetPeer connScope p, EvDial ctx a p, EvTagHop rc,
                           EvUpgrade ctx rc DirOutbound p connScope]))))"

definition Dial ::
  "externals \<Rightarrow> client \<Rightarrow> go_context \<Rightarrow> multiaddr \<Rightarrow> peer_ID \<Rightarrow> event list
     \<Rightarrow> dialResult \<times> event list" where
  "Dial ext c ctx a p tr =
     (case OpenConnection (host_ResourceManager c) tr DirOutbound False a of
        Inl err \<Rightarrow> (DialError err, tr @ [EvOpenConnection DirOutbound False a])
      | Inr connScope \<Rightarrow>
          (case dialAndUpgrade ext c ctx a p connScope (tr @ [EvOpenConnection DirOutbound False a]) of
             (DialError err, tr') \<Rightarrow> (DialError err, tr' @ [EvDone connScope])
           | (r, tr') \<Rightarrow> (r, tr')))"

definition CanDial :: "client \<Rightarrow> multiaddr \<Rightarrow> bool" where
  "CanDial c a = (case ValueForProtocol a P_CIRCUIT of Inl err \<Rightarrow> False | Inr _ \<Rightarrow> True)"

definition Protocols :: "client \<Rightarrow> int list" where
  "Protocols c = [P_CIRCUIT]"

definition Proxy :: "client \<Rightarrow> bool" where
  "Proxy c = True"

section \<open>The no-op cache (p2p/host/peerstore/pstoreds/cache.go)\<close>

text \<open>The struct has no field. \<^verbatim>\<open>*new(V)\<close> is the zero value of the type \<^verbatim>\<open>V\<close>,
  here \<^term>\<open>default\<close>. A method that mutates returns the cache.\<close>

datatype ('k, 'v) noopCache = NoopCache

definition noopCache_Get :: "('k, 'v::default) noopCache \<Rightarrow> 'k \<Rightarrow> 'v \<times> bool" where
  "noopCache_Get c k = (default, False)"

definition noopCache_Add :: "('k, 'v) noopCache \<Rightarrow> 'k \<Rightarrow> 'v \<Rightarrow> ('k, 'v) noopCache" where
  "noopCache_Add c k v = c"

definition noopCache_Remove :: "('k, 'v) noopCache \<Rightarrow> 'k \<Rightarrow> ('k, 'v) noopCache" where
  "noopCache_Remove c k = c"

definition noopCache_Contains :: "('k, 'v) noopCache \<Rightarrow> 'k \<Rightarrow> bool" where
  "noopCache_Contains c k = False"

definition noopCache_Peek :: "('k, 'v::default) noopCache \<Rightarrow> 'k \<Rightarrow> 'v \<times> bool" where
  "noopCache_Peek c k = (default, False)"

definition noopCache_Keys :: "('k, 'v) noopCache \<Rightarrow> 'k list" where
  "noopCache_Keys c = []"

text \<open>A sequence of writes, applied in order.\<close>

datatype ('k, 'v) cacheWrite = WriteAdd 'k 'v | WriteRemove 'k

fun noopCache_writes :: "('k, 'v) noopCache \<Rightarrow> ('k, 'v) cacheWrite list \<Rightarrow> ('k, 'v) noopCache" where
  "noopCache_writes c [] = c"
| "noopCache_writes c (WriteAdd k v # ws) = noopCache_writes (noopCache_Add c k v) ws"
| "noopCache_writes c (WriteRemove k # ws) = noopCache_writes (noopCache_Remove c k) ws"

section \<open>Vocabulary of the properties\<close>

text \<open>The scopes released, the connections opened with the resource manager and the
  sends on hole-punch channels that a sequence of events holds, each in order.\<close>

fun doneCalls :: "event list \<Rightarrow> ConnManagementScope list" where
  "doneCalls [] = []"
| "doneCalls (EvDone sc # es) = sc # doneCalls es"
| "doneCalls (e # es) = doneCalls es"

fun openCalls :: "event list \<Rightarrow> (direction \<times> bool \<times> multiaddr) list" where
  "openCalls [] = []"
| "openCalls (EvOpenConnection d fd a # es) = (d, fd, a) # openCalls es"
| "openCalls (e # es) = openCalls es"

fun chanSends :: "event list \<Rightarrow> (holePunchKey \<times> conn) list" where
  "chanSends [] = []"
| "chanSends (EvChanSend k c # es) = (k, c) # chanSends es"
| "chanSends (e # es) = chanSends es"

definition sendsOn :: "holePunchKey \<Rightarrow> event list \<Rightarrow> conn list" where
  "sendsOn k es = map snd (filter (\<lambda>kc. fst kc = k) (chanSends es))"

text \<open>The scope a raw session brings along (lines 91 to 98 of wrapConn), and the scope
  that Step A of the wrapping ends with: the one brought along, else the one newly
  opened, or none when Step A fails.\<close>

definition preattachedScope :: "externals \<Rightarrow> qconn \<Rightarrow> ConnManagementScope option" where
  "preattachedScope ext q =
     (case UnwrapConnManagementScope ext (Context q) of Inl err \<Rightarrow> None | Inr sc \<Rightarrow> sc)"


text \<open>A caller that calls Accept n times, one call after the other.\<close>

fun AcceptCalls ::
  "nat \<Rightarrow> externals \<Rightarrow> listener \<Rightarrow> rawAccept list \<Rightarrow> transportState
     \<Rightarrow> acceptResult list \<times> rawAccept list \<times> transportState" where
  "AcceptCalls 0 ext l rs s = ([], rs, s)"
| "AcceptCalls (Suc n) ext l rs s =
     (case Accept ext l rs s of
        (r, rs', s') \<Rightarrow>
          (case AcceptCalls n ext l rs' s' of
             (res, rs'', s'') \<Rightarrow> (r # res, rs'', s'')))"

text \<open>What a run does to the record under one key: the trace grows, the record stays
  registered, its channel grows by the sends of the run, which are at most one and none
  once the record is fulfilled, and the flag is set exactly when a send happened.\<close>

definition registryStep :: "holePunchKey \<Rightarrow> transportState \<Rightarrow> transportState \<Rightarrow> bool" where
  "registryStep k s s' =
     (\<exists>new. trace s' = trace s @ new \<and>
        (case holePunching s k of
           None \<Rightarrow> holePunching s' k = None \<and> sendsOn k new = []
         | Some hp \<Rightarrow>
             (\<exists>hp'. holePunching s' k = Some hp' \<and>
                connCh hp' = connCh hp @ sendsOn k new \<and>
                length (sendsOn k new) \<le> (if fulfilled hp then 0 else 1) \<and>
                fulfilled hp' = (fulfilled hp \<or> sendsOn k new \<noteq> []))))"

text \<open>A run that only adds events to the trace, none of them a send on a channel.\<close>

definition quietStep :: "transportState \<Rightarrow> transportState \<Rightarrow> bool" where
  "quietStep s s' = (\<exists>new. s' = s\<lparr>trace := trace s @ new\<rparr> \<and> chanSends new = [])"

section \<open>Concrete collaborators and sessions\<close>

text \<open>
  A resource manager that admits every connection under scope 7 and one that admits
  none; scopes that refuse the peer mallory; a certificate chain of one certificate
  that is the key, which is the peer identity; a context with handle n > 0 carries the
  scope n.
\<close>

definition ex_externals :: externals where
  "ex_externals =
     \<lparr>ToQuicMultiaddr = (\<lambda>a v. if a = [] then Inl ''not a UDP address''
                               else Inr [(273, a), (if v = Version1 then P_QUIC_V1 else 460, [])]),
      UnwrapConnManagementScope = (\<lambda>ctx. if ctx = 0 then Inl ''context has no ConnManagementScope''
                                         else Inr (Some ctx)),
      PubKeyFromCertChain = (\<lambda>cs. case cs of [k] \<Rightarrow> Inr k
                                   | _ \<Rightarrow> Inl ''expected one certificate in the chain''),
      IDFromPublicKey = (\<lambda>k. if k = [] then Inl ''empty key'' else Inr k),
      VersionString = (\<lambda>v. if v = Version1 then ''v1'' else ''unknown''),
      SetPeer = (\<lambda>tr sc p. if p = ''mallory'' then Some ''peer limit exceeded'' else None)\<rparr>"

definition ex_rcmgr :: resourceManager where
  "ex_rcmgr = \<lparr>OpenConnection = (\<lambda>tr d fd a. Inr 7)\<rparr>"

definition ex_rcmgr_full :: resourceManager where
  "ex_rcmgr_full = \<lparr>OpenConnection = (\<lambda>tr d fd a. Inl ''resource limit exceeded'')\<rparr>"

definition ex_gater_rejecting :: connectionGater where
  "ex_gater_rejecting =
     \<lparr>InterceptAccept = (\<lambda>tr c. True), InterceptSecured = (\<lambda>tr d p c. False)\<rparr>"

definition ex_local :: multiaddr where
  "ex_local = [(4, ''192.0.2.1''), (273, ''4001''), (P_QUIC_V1, [])]"

definition ex_reuse :: quicreuseListener where
  "ex_reuse = \<lparr>Multiaddrs = [[(4, ''192.0.2.1''), (6, ''4001'')], ex_local]\<rparr>"

definition ex_listener :: "connectionGater option \<Rightarrow> resourceManager \<Rightarrow> listener" where
  "ex_listener g rm =
     \<lparr>reuseListener = ex_reuse, transport = \<lparr>gater = g\<rparr>, rcmgr = rm, privKey = ''key'',
      localPeer = ''me'', localMultiaddrs = [Version1 \<mapsto> ex_local]\<rparr>"

definition ex_session :: "nat \<Rightarrow> version \<Rightarrow> string \<Rightarrow> go_context \<Rightarrow> qconn" where
  "ex_session n v p ctx =
     \<lparr>qconnID = n, RemoteAddr = ''198.51.100.2:4001'', Version = v,
      PeerCertificates = [p], Context = ctx\<rparr>"

definition ex_conn :: "nat \<Rightarrow> string \<Rightarrow> go_context \<Rightarrow> ConnManagementScope \<Rightarrow> conn" where
  "ex_conn n p ctx sc =
     \<lparr>quicConn = ex_session n Version1 p ctx, scope = sc, conn_localPeer = ''me'',
      localMultiaddr = ex_local,
      remoteMultiaddr = [(273, ''198.51.100.2:4001''), (P_QUIC_V1, [])],
      remotePeerID = p, remotePubKey = p\<rparr>"

definition ex_key :: holePunchKey where
  "ex_key = \<lparr>addr = ''198.51.100.2:4001'', peer = ''alice''\<rparr>"

definition ex_state :: transportState where
  "ex_state = \<lparr>trace = [], holePunching = [ex_key \<mapsto> \<lparr>connCh = [], fulfilled = False\<rparr>]\<rparr>"

text \<open>A relay client whose raw dial reaches every peer but offline, under the handle 3,
  and whose upgrader fails for the peer eve without closing the raw connection, and for
  the peer frank after closing it.\<close>

definition ex_client :: "resourceManager \<Rightarrow> client" where
  "ex_client rm =
     \<lparr>host_ResourceManager = rm,
      dial = (\<lambda>tr ctx a p. if p = ''offline'' then Inl ''no reservation'' else Inr 3),
      upgrader = \<lparr>Upgrade = (\<lambda>tr ctx rc d p sc.
                    if p = ''eve'' then UpgradeError ''handshake failed'' False
                    else if p = ''frank'' then UpgradeError ''handshake failed'' True
                    else UpgradeOK True)\<rparr>\<rparr>"

definition ex_relay_addr :: multiaddr where
  "ex_relay_addr = [(4, ''192.0.2.9''), (6, ''4001''), (421, ''relay''), (P_CIRCUIT, [])]"

section \<open>The no-op cache\<close>

lemma noopCache_writes_same: "noopCache_writes c ws = c"
  by (induction c ws rule: noopCache_writes.induct)
    (simp_all add: noopCache_Add_def noopCache_Remove_def)

text \<open>
  C9. After any sequence of Add and Remove, for every key, Get and Peek of the no-op
  cache return the zero value with false, Contains returns false, Keys returns the
  empty sequence, and the cache is what it was before the writes.
\<close>

theorem noopCache_contract:
  "noopCache_Get (noopCache_writes c ws) k = (default, False) \<and>
   noopCache_Peek (noopCache_writes c ws) k = (default, False) \<and>
   noopCache_Contains (noopCache_writes c ws) k = False \<and>
   noopCache_Keys (noopCache_writes c ws) = [] \<and>
   noopCache_writes c ws = c"
  by (simp add: noopCache_writes_same noopCache_Get_def noopCache_Peek_def
      noopCache_Contains_def noopCache_Keys_def)

section \<open>The predicates of the relay transport\<close>

lemma ValueForProtocol_found:
  "(\<exists>v. ValueForProtocol a code = Inr v) \<longleftrightarrow> code \<in> fst ` set a"
  by (induction a code rule: ValueForProtocol.induct) auto

text \<open>
  C8. CanDial holds of an address exactly when one of its components is the
  circuit-relay protocol; Protocols is the one-element sequence of the circuit-relay
  code; Proxy is true.
\<close>

theorem relay_transport_predicates:
  "(CanDial c a \<longleftrightarrow> P_CIRCUIT \<in> fst ` set a) \<and>
   Protocols c = [P_CIRCUIT] \<and> length (Protocols c) = 1 \<and> Proxy c = True"
  using ValueForProtocol_found [of a P_CIRCUIT]
  by (auto simp: CanDial_def Protocols_def Proxy_def split: sum.splits)

theorem relay_transport_predicates_witness:
  "CanDial (ex_client ex_rcmgr) ex_relay_addr \<and>
   \<not> CanDial (ex_client ex_rcmgr) ex_local \<and>
   Protocols (ex_client ex_rcmgr) = [290]"
  using relay_transport_predicates [of "ex_client ex_rcmgr" ex_relay_addr]
    relay_transport_predicates [of "ex_client ex_rcmgr" ex_local]
  by (simp add: ex_relay_addr_def ex_local_def P_CIRCUIT_def P_QUIC_V1_def)

section \<open>Wrapping a raw session\<close>


lemma openCalls_append: "openCalls (xs @ ys) = openCalls xs @ openCalls ys"
  by (induction xs rule: openCalls.induct) simp_all

lemma chanSends_append: "chanSends (xs @ ys) = chanSends xs @ chanSends ys"
  by (induction xs rule: chanSends.induct) simp_all

lemma sendsOn_append: "sendsOn k (xs @ ys) = sendsOn k xs @ sendsOn k ys"
  by (simp add: sendsOn_def chanSends_append)


lemmas ex_defs = ex_externals_def ex_rcmgr_def ex_rcmgr_full_def ex_listener_def
  ex_session_def ex_conn_def ex_local_def ex_reuse_def ex_key_def ex_state_def
  ex_gater_rejecting_def ex_client_def ex_relay_addr_def Version1_def P_QUIC_V1_def P_CIRCUIT_def

lemmas wrap_defs = wrapConn_def wrapConn_release_def wrapConnWithScope_def


text \<open>
  C7. When the remote multiaddress cannot be derived, wrapConn returns that error and
  makes no call. Otherwise, with a scope brought along by the session, wrapConn opens
  no connection with the resource manager and uses that scope (the connection holds
  it, or it is the one released on failure); with none, wrapConn opens exactly one
  connection, inbound, for the derived address, and when that fails it returns the
  error after that one call, with no Done, else it uses the scope just opened.
\<close>

theorem wrapConn_scope_acquisition:
  "\<exists>new. snd (wrapConn ext l q tr) = tr @ new \<and>
     (case ToQuicMultiaddr ext (RemoteAddr q) (Version q) of
        Inl err \<Rightarrow> fst (wrapConn ext l q tr) = Inl err \<and> new = []
      | Inr rma \<Rightarrow>
          (case preattachedScope ext q of
             Some sc \<Rightarrow>
               openCalls new = [] \<and>
               (case fst (wrapConn ext l q tr) of
                  Inl err \<Rightarrow> doneCalls new = [sc]
                | Inr c \<Rightarrow> scope c = sc \<and> remoteMultiaddr c = rma)
           | None \<Rightarrow>
               openCalls new = [(DirInbound, False, rma)] \<and>
               hd new = EvOpenConnection DirInbound False rma \<and>
               (case OpenConnection (rcmgr l) tr DirInbound False rma of
                  Inl err \<Rightarrow>
                    fst (wrapConn ext l q tr) = Inl err \<and>
                    new = [EvOpenConnection DirInbound False rma]
                | Inr sc \<Rightarrow>
                    (case fst (wrapConn ext l q tr) of
                       Inl err \<Rightarrow> doneCalls new = [sc]
                     | Inr c \<Rightarrow> scope c = sc \<and> remoteMultiaddr c = rma))))"
  by (auto simp: wrapConn_def wrapConn_release_def wrapConnWithScope_def
      preattachedScope_def split: sum.splits option.splits prod.splits)

theorem wrapConn_scope_acquisition_witness:
  "(\<exists>new. snd (wrapConn ex_externals (ex_listener None ex_rcmgr) (ex_session 1 1 ''alice'' 9) [])
            = [] @ new \<and> openCalls new = [] \<and>
            fst (wrapConn ex_externals (ex_listener None ex_rcmgr) (ex_session 1 1 ''alice'' 9) [])
              = Inr (ex_conn 1 ''alice'' 9 9)) \<and>
   (\<exists>new. snd (wrapConn ex_externals (ex_listener None ex_rcmgr) (ex_session 2 1 ''alice'' 0) [])
            = [] @ new \<and>
            openCalls new = [(DirInbound, False, [(273, ''198.51.100.2:4001''), (461, [])])] \<and>
            fst (wrapConn ex_externals (ex_listener None ex_rcmgr) (ex_session 2 1 ''alice'' 0) [])
              = Inr (ex_conn 2 ''alice'' 0 7)) \<and>
   (\<exists>new. snd (wrapConn ex_externals (ex_listener None ex_rcmgr_full) (ex_session 3 1 ''alice'' 0) [])
            = [] @ new \<and>
            new = [EvOpenConnection DirInbound False [(273, ''198.51.100.2:4001''), (461, [])]] \<and>
            fst (wrapConn ex_externals (ex_listener None ex_rcmgr_full) (ex_session 3 1 ''alice'' 0) [])
              = Inl ''resource limit exceeded'')"
  using wrapConn_scope_acquisition
      [of ex_externals "ex_listener None ex_rcmgr" "ex_session 1 1 ''alice'' 9" "[]"]
    wrapConn_scope_acquisition
      [of ex_externals "ex_listener None ex_rcmgr" "ex_session 2 1 ''alice'' 0" "[]"]
    wrapConn_scope_acquisition
      [of ex_externals "ex_listener None ex_rcmgr_full" "ex_session 3 1 ''alice'' 0" "[]"]
  by (simp add: ex_defs wrap_defs preattachedScope_def)

section \<open>The accept loop\<close>

lemma sendsOn_quiet: "chanSends new = [] \<Longrightarrow> sendsOn k new = []"
  by (simp add: sendsOn_def)

lemma wrapConn_trace: "\<exists>new. snd (wrapConn ext l q tr) = tr @ new \<and> chanSends new = []"
  by (auto simp: wrap_defs split: sum.splits option.splits prod.splits)

lemma gated_trace: "\<exists>new. snd (gated t c tr) = tr @ new \<and> chanSends new = []"
  by (auto simp: gated_def split: option.splits)

text \<open>
  C6. An error of the raw accept ends Accept with that error, the state untouched.
  When wrapConn fails for a raw session, Accept closes the session with the
  resource-limit-exceeded code and goes on with the next raw accept.
\<close>

theorem Accept_error_classification:
  "Accept ext l (RawAcceptError err # rest) s = (AcceptError err, rest, s) \<and>
   (fst (wrapConn ext l q (trace s)) = Inl e \<longrightarrow>
      Accept ext l (RawAccepted q # rest) s =
        Accept ext l rest
          (s\<lparr>trace := snd (wrapConn ext l q (trace s))
                        @ [EvQuicCloseWithError q ConnResourceLimitExceeded []]\<rparr>))"
  by (cases "wrapConn ext l q (trace s)") (simp add: acceptConn_def)

theorem Accept_error_classification_witness:
  "fst (wrapConn ex_externals (ex_listener None ex_rcmgr) (ex_session 1 1 ''mallory'' 0)
          (trace ex_state)) = Inl ''peer limit exceeded'' \<and>
   Accept ex_externals (ex_listener None ex_rcmgr)
      [RawAccepted (ex_session 1 1 ''mallory'' 0), RawAcceptError ''listener closed''] ex_state
     = (AcceptError ''listener closed'', [],
        ex_state\<lparr>trace :=
          [EvOpenConnection DirInbound False [(273, ''198.51.100.2:4001''), (461, [])],
           EvSetPeer 7 ''mallory'', EvDone 7,
           EvQuicCloseWithError (ex_session 1 1 ''mallory'' 0) ConnResourceLimitExceeded []]\<rparr>)"
  using Accept_error_classification
      [where ext = ex_externals and l = "ex_listener None ex_rcmgr"
          and err = "''listener closed''" and rest = "[]" and s =
          "ex_state\<lparr>trace :=
          [EvOpenConnection DirInbound False [(273, ''198.51.100.2:4001''), (461, [])],
           EvSetPeer 7 ''mallory'', EvDone 7,
           EvQuicCloseWithError (ex_session 1 1 ''mallory'' 0) ConnResourceLimitExceeded []]\<rparr>"]
    Accept_error_classification
      [where ext = ex_externals and l = "ex_listener None ex_rcmgr" and s = ex_state
          and q = "ex_session 1 1 ''mallory'' 0" and e = "''peer limit exceeded''"
          and rest = "[RawAcceptError ''listener closed'']"]
  by (simp add: ex_defs wrap_defs)

subsection \<open>Gating\<close>

lemma acceptConn_gated:
  assumes "gater (transport l) = Some g"
    and "wrapConn ext l q (trace s) = (Inr c, tr1)"
    and "\<not> (InterceptAccept g (tr1 @ [EvAddConn q c]) c \<and>
            InterceptSecured g (tr1 @ [EvAddConn q c, EvInterceptAccept c]) DirInbound
              (remotePeerID c) c)"
  shows "\<exists>new. acceptConn ext l q s =
            (None, s\<lparr>trace := trace s @ new
                       @ [EvConnCloseWithError c ConnGated ''connection gated'']\<rparr>) \<and>
          chanSends new = []"
proof -
  from wrapConn_trace [of ext l q "trace s"] assms(2)
  obtain n1 where n1: "tr1 = trace s @ n1" "chanSends n1 = []" by auto
  show ?thesis
  proof (cases "InterceptAccept g (tr1 @ [EvAddConn q c]) c")
    case True
    with assms n1 show ?thesis
      by (intro exI [of _ "n1 @ [EvAddConn q c, EvInterceptAccept c,
            EvInterceptSecured DirInbound (remotePeerID c) c]"])
        (simp add: acceptConn_def gated_def chanSends_append)
  next
    case False
    with assms n1 show ?thesis
      by (intro exI [of _ "n1 @ [EvAddConn q c, EvInterceptAccept c]"])
        (simp add: acceptConn_def gated_def chanSends_append)
  qed
qed

lemma quietStep_refl: "quietStep s s"
  unfolding quietStep_def by (intro exI [of _ "[]"]) simp

lemma quietStep_trans: "quietStep s s' \<Longrightarrow> quietStep s' s'' \<Longrightarrow> quietStep s s''"
  by (auto simp: quietStep_def chanSends_append)

lemma acceptConn_rejecting:
  assumes "gater (transport l) = Some g"
    and "\<forall>tr c. \<not> (InterceptAccept g tr c \<and>
            InterceptSecured g (tr @ [EvInterceptAccept c]) DirInbound (remotePeerID c) c)"
  shows "fst (acceptConn ext l q s) = None \<and> quietStep s (snd (acceptConn ext l q s))"
proof -
  obtain r tr1 where w: "wrapConn ext l q (trace s) = (r, tr1)"
    by (cases "wrapConn ext l q (trace s)")
  from wrapConn_trace [of ext l q "trace s"] w
  obtain n1 where n1: "tr1 = trace s @ n1" "chanSends n1 = []" by auto
  show ?thesis
  proof (cases r)
    case (Inl err)
    with w n1 show ?thesis
      unfolding quietStep_def
      by (intro conjI exI [of _ "n1 @ [EvQuicCloseWithError q ConnResourceLimitExceeded []]"])
        (simp_all add: acceptConn_def chanSends_append)
  next
    case (Inr c)
    have "\<not> (InterceptAccept g (tr1 @ [EvAddConn q c]) c \<and>
            InterceptSecured g (tr1 @ [EvAddConn q c, EvInterceptAccept c]) DirInbound
              (remotePeerID c) c)"
      using assms(2) [rule_format, of "tr1 @ [EvAddConn q c]" c] by simp
    from acceptConn_gated [OF assms(1) w [unfolded Inr] this]
    show ?thesis by (auto simp: quietStep_def chanSends_append)
  qed
qed

lemma Accept_rejecting:
  assumes "gater (transport l) = Some g"
    and "\<forall>tr c. \<not> (InterceptAccept g tr c \<and>
            InterceptSecured g (tr @ [EvInterceptAccept c]) DirInbound (remotePeerID c) c)"
  shows "(\<forall>c. fst (Accept ext l rs s) \<noteq> Accepted c) \<and>
         quietStep s (snd (snd (Accept ext l rs s)))"
  using assms
proof (induction ext l rs s rule: Accept.induct)
  case (1 ext l s)
  then show ?case by (simp add: quietStep_refl)
next
  case (2 ext l err rest s)
  then show ?case by (simp add: quietStep_refl)
next
  case (3 ext l q rest s)
  obtain r s' where a: "acceptConn ext l q s = (r, s')" by (cases "acceptConn ext l q s")
  from acceptConn_rejecting [OF "3.prems", of ext q s] a
  have r: "r = None" and st: "quietStep s s'" by simp_all
  from "3.IH" [OF a [symmetric] r "3.prems"] a r
  have "(\<forall>c. fst (Accept ext l rest s') \<noteq> Accepted c) \<and>
        quietStep s' (snd (snd (Accept ext l rest s')))" by simp
  with a r st show ?case by (auto intro: quietStep_trans)
qed

lemma AcceptCalls_rejecting:
  assumes "gater (transport l) = Some g"
    and "\<forall>tr c. \<not> (InterceptAccept g tr c \<and>
            InterceptSecured g (tr @ [EvInterceptAccept c]) DirInbound (remotePeerID c) c)"
  shows "(\<forall>c. Accepted c \<notin> set (fst (AcceptCalls n ext l rs s))) \<and>
         quietStep s (snd (snd (AcceptCalls n ext l rs s)))"
proof (induction n arbitrary: rs s)
  case 0
  then show ?case by (simp add: quietStep_refl)
next
  case (Suc n)
  obtain r rs' s' where a: "Accept ext l rs s = (r, rs', s')" by (cases "Accept ext l rs s")
  from Accept_rejecting [OF assms, of ext rs s] a
  have r: "\<forall>c. r \<noteq> Accepted c" and st: "quietStep s s'" by simp_all
  from Suc.IH [of rs' s'] a r st show ?case
    by (auto split: prod.splits intro: quietStep_trans)
qed

text \<open>
  C5. With a gater configured: when the accept interception or, after it, the
  post-security interception rejects a wrapped connection, Accept closes it with the
  gated code and goes on with the next raw accept, in a state that differs only by
  calls logged, none of them a send on a hole-punch channel. With a gater that rejects
  every connection, no call of Accept returns a connection, the registry stays as it
  was and no send on a channel happens.
\<close>

theorem gating_enforcement:
  assumes "gater (transport l) = Some g"
  shows
  "(wrapConn ext l q (trace s) = (Inr c, trw) \<and>
    \<not> (InterceptAccept g (trw @ [EvAddConn q c]) c \<and>
       InterceptSecured g (trw @ [EvAddConn q c, EvInterceptAccept c]) DirInbound
         (remotePeerID c) c) \<longrightarrow>
      (\<exists>new. Accept ext l (RawAccepted q # rest) s =
                Accept ext l rest
                  (s\<lparr>trace := trace s @ new
                        @ [EvConnCloseWithError c ConnGated ''connection gated'']\<rparr>) \<and>
              chanSends new = [])) \<and>
   ((\<forall>tr c. \<not> (InterceptAccept g tr c \<and>
        InterceptSecured g (tr @ [EvInterceptAccept c]) DirInbound (remotePeerID c) c)) \<longrightarrow>
      (\<forall>c. Accepted c \<notin> set (fst (AcceptCalls n ext l rs si))) \<and>
      (\<exists>new. snd (snd (AcceptCalls n ext l rs si)) = si\<lparr>trace := trace si @ new\<rparr> \<and>
              chanSends new = []))"
proof (intro conjI impI)
  assume h: "wrapConn ext l q (trace s) = (Inr c, trw) \<and>
    \<not> (InterceptAccept g (trw @ [EvAddConn q c]) c \<and>
       InterceptSecured g (trw @ [EvAddConn q c, EvInterceptAccept c]) DirInbound
         (remotePeerID c) c)"
  from acceptConn_gated [OF assms conjunct1 [OF h] conjunct2 [OF h]]
  obtain new where "acceptConn ext l q s =
      (None, s\<lparr>trace := trace s @ new @ [EvConnCloseWithError c ConnGated ''connection gated'']\<rparr>)"
    "chanSends new = []" by blast
  then show "\<exists>new. Accept ext l (RawAccepted q # rest) s =
                Accept ext l rest
                  (s\<lparr>trace := trace s @ new
                        @ [EvConnCloseWithError c ConnGated ''connection gated'']\<rparr>) \<and>
              chanSends new = []"
    by (intro exI [of _ new]) simp
next
  assume h: "\<forall>tr c. \<not> (InterceptAccept g tr c \<and>
        InterceptSecured g (tr @ [EvInterceptAccept c]) DirInbound (remotePeerID c) c)"
  from AcceptCalls_rejecting [OF assms h, of n ext rs si]
  show "\<forall>c. Accepted c \<notin> set (fst (AcceptCalls n ext l rs si))" by blast
next
  assume h: "\<forall>tr c. \<not> (InterceptAccept g tr c \<and>
        InterceptSecured g (tr @ [EvInterceptAccept c]) DirInbound (remotePeerID c) c)"
  from AcceptCalls_rejecting [OF assms h, of n ext rs si]
  show "\<exists>new. snd (snd (AcceptCalls n ext l rs si)) = si\<lparr>trace := trace si @ new\<rparr> \<and>
              chanSends new = []"
    by (simp add: quietStep_def)
qed

theorem gating_enforcement_witness:
  "fst (AcceptCalls (Suc (Suc 0)) ex_externals (ex_listener (Some ex_gater_rejecting) ex_rcmgr)
          [RawAccepted (ex_session 1 1 ''alice'' 0), RawAccepted (ex_session 2 1 ''bob'' 0)]
          ex_state) = [AcceptBlocked, AcceptBlocked] \<and>
   holePunching (snd (snd (AcceptCalls (Suc (Suc 0)) ex_externals
          (ex_listener (Some ex_gater_rejecting) ex_rcmgr)
          [RawAccepted (ex_session 1 1 ''alice'' 0), RawAccepted (ex_session 2 1 ''bob'' 0)]
          ex_state))) = holePunching ex_state \<and>
   Accept ex_externals (ex_listener (Some ex_gater_rejecting) ex_rcmgr)
          [RawAccepted (ex_session 1 1 ''alice'' 0)] ex_state
     = (AcceptBlocked, [],
        ex_state\<lparr>trace :=
          [EvOpenConnection DirInbound False [(273, ''198.51.100.2:4001''), (461, [])],
           EvSetPeer 7 ''alice'',
           EvAddConn (ex_session 1 1 ''alice'' 0) (ex_conn 1 ''alice'' 0 7),
           EvInterceptAccept (ex_conn 1 ''alice'' 0 7),
           EvInterceptSecured DirInbound ''alice'' (ex_conn 1 ''alice'' 0 7),
           EvConnCloseWithError (ex_conn 1 ''alice'' 0 7) ConnGated ''connection gated'']\<rparr>)"
  using gating_enforcement
      [where l = "ex_listener (Some ex_gater_rejecting) ex_rcmgr" and g = ex_gater_rejecting
         and ext = ex_externals and n = "Suc (Suc 0)" and si = ex_state and s = ex_state
         and q = "ex_session 1 1 ''alice'' 0" and c = "ex_conn 1 ''alice'' 0 7"
         and rest = "[]"
         and trw = "[EvOpenConnection DirInbound False [(273, ''198.51.100.2:4001''), (461, [])],
                     EvSetPeer 7 ''alice'']"
         and rs = "[RawAccepted (ex_session 1 1 ''alice'' 0), RawAccepted (ex_session 2 1 ''bob'' 0)]"]
  by (simp add: ex_defs wrap_defs acceptConn_def gated_def holePunchOrReturn_def)

subsection \<open>The hole-punch rendezvous\<close>

lemma registryStep_refl: "registryStep k s s"
  unfolding registryStep_def
  by (intro exI [of _ "[]"]) (simp add: sendsOn_def split: option.splits)

lemma registryStep_quiet:
  "chanSends new = [] \<Longrightarrow> registryStep k s (s\<lparr>trace := trace s @ new\<rparr>)"
  unfolding registryStep_def
  by (intro exI [of _ new]) (simp add: sendsOn_def split: option.splits)

lemma registryStep_trans:
  assumes "registryStep k s s'" and "registryStep k s' s''"
  shows "registryStep k s s''"
proof -
  from assms(1) obtain n1 where n1: "trace s' = trace s @ n1"
    and c1: "case holePunching s k of
           None \<Rightarrow> holePunching s' k = None \<and> sendsOn k n1 = []
         | Some hp \<Rightarrow>
             (\<exists>hp'. holePunching s' k = Some hp' \<and>
                connCh hp' = connCh hp @ sendsOn k n1 \<and>
                length (sendsOn k n1) \<le> (if fulfilled hp then 0 else 1) \<and>
                fulfilled hp' = (fulfilled hp \<or> sendsOn k n1 \<noteq> []))"
    unfolding registryStep_def by blast
  from assms(2) obtain n2 where n2: "trace s'' = trace s' @ n2"
    and c2: "case holePunching s' k of
           None \<Rightarrow> holePunching s'' k = None \<and> sendsOn k n2 = []
         | Some hp \<Rightarrow>
             (\<exists>hp'. holePunching s'' k = Some hp' \<and>
                connCh hp' = connCh hp @ sendsOn k n2 \<and>
                length (sendsOn k n2) \<le> (if fulfilled hp then 0 else 1) \<and>
                fulfilled hp' = (fulfilled hp \<or> sendsOn k n2 \<noteq> []))"
    unfolding registryStep_def by blast
  have tr: "trace s'' = trace s @ (n1 @ n2)" using n1 n2 by simp
  show ?thesis
  proof (cases "holePunching s k")
    case None
    with c1 c2 tr show ?thesis
      unfolding registryStep_def
      by (intro exI [of _ "n1 @ n2"]) (simp add: sendsOn_append)
  next
    case (Some hp)
    with c1 obtain hp' where h1: "holePunching s' k = Some hp'"
      "connCh hp' = connCh hp @ sendsOn k n1"
      "length (sendsOn k n1) \<le> (if fulfilled hp then 0 else 1)"
      "fulfilled hp' = (fulfilled hp \<or> sendsOn k n1 \<noteq> [])" by auto
    with c2 obtain hp'' where h2: "holePunching s'' k = Some hp''"
      "connCh hp'' = connCh hp' @ sendsOn k n2"
      "length (sendsOn k n2) \<le> (if fulfilled hp' then 0 else 1)"
      "fulfilled hp'' = (fulfilled hp' \<or> sendsOn k n2 \<noteq> [])" by auto
    have "length (sendsOn k (n1 @ n2)) \<le> (if fulfilled hp then 0 else 1)"
      using h1(3,4) h2(3) by (auto simp: sendsOn_append split: if_splits)
    moreover have "connCh hp'' = connCh hp @ sendsOn k (n1 @ n2)"
      using h1(2) h2(2) by (simp add: sendsOn_append)
    moreover have "fulfilled hp'' = (fulfilled hp \<or> sendsOn k (n1 @ n2) \<noteq> [])"
      using h1(4) h2(4) by (auto simp: sendsOn_append)
    ultimately show ?thesis
      unfolding registryStep_def using Some tr h2(1)
      by (intro exI [of _ "n1 @ n2"]) simp
  qed
qed

lemma holePunchOrReturn_step: "registryStep k s (snd (holePunchOrReturn q c s))"
proof (cases "holePunching s \<lparr>addr = RemoteAddr q, peer = remotePeerID c\<rparr>")
  case None
  then show ?thesis by (simp add: holePunchOrReturn_def registryStep_refl)
next
  case (Some hp)
  show ?thesis
  proof (cases "fulfilled hp")
    case True
    with Some show ?thesis by (simp add: holePunchOrReturn_def registryStep_refl)
  next
    case False
    with Some show ?thesis
      unfolding registryStep_def
      by (intro exI [of _ "[EvChanSend \<lparr>addr = RemoteAddr q, peer = remotePeerID c\<rparr> c]"])
        (auto simp: holePunchOrReturn_def Let_def sendsOn_def split: option.splits)
  qed
qed

lemma acceptConn_step: "registryStep k s (snd (acceptConn ext l q s))"
proof -
  obtain r tr1 where w: "wrapConn ext l q (trace s) = (r, tr1)"
    by (cases "wrapConn ext l q (trace s)")
  from wrapConn_trace [of ext l q "trace s"] w
  obtain n1 where n1: "tr1 = trace s @ n1" "chanSends n1 = []" by auto
  show ?thesis
  proof (cases r)
    case (Inl err)
    have "snd (acceptConn ext l q s) =
        s\<lparr>trace := trace s @ (n1 @ [EvQuicCloseWithError q ConnResourceLimitExceeded []])\<rparr>"
      using w Inl n1 by (simp add: acceptConn_def)
    then show ?thesis using n1 by (simp add: registryStep_quiet chanSends_append)
  next
    case (Inr c)
    obtain g tr2 where g: "gated (transport l) c (tr1 @ [EvAddConn q c]) = (g, tr2)"
      by (cases "gated (transport l) c (tr1 @ [EvAddConn q c])")
    from gated_trace [of "transport l" c "tr1 @ [EvAddConn q c]"] g
    obtain n2 where n2: "tr2 = tr1 @ [EvAddConn q c] @ n2" "chanSends n2 = []" by auto
    have tr2: "tr2 = trace s @ (n1 @ [EvAddConn q c] @ n2)" using n1 n2 by simp
    have q2: "chanSends (n1 @ [EvAddConn q c] @ n2) = []"
      using n1 n2 by (simp add: chanSends_append)
    show ?thesis
    proof (cases g)
      case True
      have "snd (acceptConn ext l q s) =
          s\<lparr>trace := trace s @ ((n1 @ [EvAddConn q c] @ n2)
                 @ [EvConnCloseWithError c ConnGated ''connection gated''])\<rparr>"
        using w Inr g True tr2 by (simp add: acceptConn_def)
      then show ?thesis using q2 by (simp add: registryStep_quiet chanSends_append)
    next
      case False
      have pre: "registryStep k s (s\<lparr>trace := tr2\<rparr>)"
        unfolding tr2 using q2 by (rule registryStep_quiet)
      from w Inr g False have "snd (acceptConn ext l q s) =
          snd (holePunchOrReturn q c (s\<lparr>trace := tr2\<rparr>))"
        by (simp add: acceptConn_def)
      with pre holePunchOrReturn_step [of k "s\<lparr>trace := tr2\<rparr>" q c] show ?thesis
        by (auto intro: registryStep_trans)
    qed
  qed
qed

lemma Accept_step: "registryStep k s (snd (snd (Accept ext l rs s)))"
proof (induction ext l rs s rule: Accept.induct)
  case (1 ext l s)
  then show ?case by (simp add: registryStep_refl)
next
  case (2 ext l err rest s)
  then show ?case by (simp add: registryStep_refl)
next
  case (3 ext l q rest s)
  obtain r s' where a: "acceptConn ext l q s = (r, s')" by (cases "acceptConn ext l q s")
  have st: "registryStep k s s'" using acceptConn_step [of k s ext l q] a by simp
  show ?case
  proof (cases r)
    case None
    with a 3 have "registryStep k s' (snd (snd (Accept ext l rest s')))" by simp
    with st None a show ?thesis by (auto intro: registryStep_trans)
  next
    case (Some c)
    with a st show ?thesis by simp
  qed
qed

lemma AcceptCalls_step: "registryStep k s (snd (snd (AcceptCalls n ext l rs s)))"
proof (induction n arbitrary: rs s)
  case 0
  then show ?case by (simp add: registryStep_refl)
next
  case (Suc n)
  obtain r rs' s' where a: "Accept ext l rs s = (r, rs', s')" by (cases "Accept ext l rs s")
  have "registryStep k s s'" using Accept_step [of k s ext l rs] a by simp
  moreover have "registryStep k s' (snd (snd (AcceptCalls n ext l rs' s')))" by (rule Suc.IH)
  ultimately show ?case using a
    by (auto split: prod.splits intro: registryStep_trans)
qed

text \<open>
  C1. Over any number of calls of Accept on any input, for every key: the trace grows;
  a key with no record keeps none and sees no send; a record stays registered, its
  channel grows by the sends of the run on its key, which are at most one, and none
  when the record was fulfilled before, and it is fulfilled afterwards exactly when it
  was before or a send happened. In one turn of the loop, for a connection that is
  wrapped and not gated and whose key has a record: when the record is not fulfilled,
  the connection is sent on its channel, the record is marked fulfilled and Accept
  goes on with the next raw accept; when the record is fulfilled, Accept returns the
  connection.
\<close>

theorem rendezvous_exclusivity:
  "(\<exists>new. trace (snd (snd (AcceptCalls n ext l rs si))) = trace si @ new \<and>
      (case holePunching si k of
         None \<Rightarrow>
           holePunching (snd (snd (AcceptCalls n ext l rs si))) k = None \<and> sendsOn k new = []
       | Some hp \<Rightarrow>
           (\<exists>hp'. holePunching (snd (snd (AcceptCalls n ext l rs si))) k = Some hp' \<and>
              connCh hp' = connCh hp @ sendsOn k new \<and>
              length (sendsOn k new) \<le> (if fulfilled hp then 0 else 1) \<and>
              fulfilled hp' = (fulfilled hp \<or> sendsOn k new \<noteq> [])))) \<and>
   (wrapConn ext l q (trace s) = (Inr c, trw) \<and>
    gated (transport l) c (trw @ [EvAddConn q c]) = (False, trg) \<and>
    holePunching s \<lparr>addr = RemoteAddr q, peer = remotePeerID c\<rparr> = Some rec \<longrightarrow>
      Accept ext l (RawAccepted q # rest) s =
        (if fulfilled rec then (Accepted c, rest, s\<lparr>trace := trg\<rparr>)
         else Accept ext l rest
                (s\<lparr>trace := trg @ [EvChanSend \<lparr>addr = RemoteAddr q, peer = remotePeerID c\<rparr> c],
                   holePunching := (holePunching s)
                     (\<lparr>addr = RemoteAddr q, peer = remotePeerID c\<rparr> \<mapsto>
                        rec\<lparr>connCh := connCh rec @ [c], fulfilled := True\<rparr>)\<rparr>)))"
proof (intro conjI impI)
  show "\<exists>new. trace (snd (snd (AcceptCalls n ext l rs si))) = trace si @ new \<and>
      (case holePunching si k of
         None \<Rightarrow>
           holePunching (snd (snd (AcceptCalls n ext l rs si))) k = None \<and> sendsOn k new = []
       | Some hp \<Rightarrow>
           (\<exists>hp'. holePunching (snd (snd (AcceptCalls n ext l rs si))) k = Some hp' \<and>
              connCh hp' = connCh hp @ sendsOn k new \<and>
              length (sendsOn k new) \<le> (if fulfilled hp then 0 else 1) \<and>
              fulfilled hp' = (fulfilled hp \<or> sendsOn k new \<noteq> [])))"
    using AcceptCalls_step [of k si n ext l rs] unfolding registryStep_def .
next
  assume "wrapConn ext l q (trace s) = (Inr c, trw) \<and>
    gated (transport l) c (trw @ [EvAddConn q c]) = (False, trg) \<and>
    holePunching s \<lparr>addr = RemoteAddr q, peer = remotePeerID c\<rparr> = Some rec"
  then show "Accept ext l (RawAccepted q # rest) s =
        (if fulfilled rec then (Accepted c, rest, s\<lparr>trace := trg\<rparr>)
         else Accept ext l rest
                (s\<lparr>trace := trg @ [EvChanSend \<lparr>addr = RemoteAddr q, peer = remotePeerID c\<rparr> c],
                   holePunching := (holePunching s)
                     (\<lparr>addr = RemoteAddr q, peer = remotePeerID c\<rparr> \<mapsto>
                        rec\<lparr>connCh := connCh rec @ [c], fulfilled := True\<rparr>)\<rparr>))"
    by (simp add: acceptConn_def holePunchOrReturn_def Let_def)
qed

theorem rendezvous_exclusivity_witness:
  "Accept ex_externals (ex_listener None ex_rcmgr)
      [RawAccepted (ex_session 1 1 ''alice'' 0), RawAccepted (ex_session 2 1 ''alice'' 0)] ex_state
     = (Accepted (ex_conn 2 ''alice'' 0 7), [],
        \<lparr>trace =
          [EvOpenConnection DirInbound False [(273, ''198.51.100.2:4001''), (461, [])],
           EvSetPeer 7 ''alice'',
           EvAddConn (ex_session 1 1 ''alice'' 0) (ex_conn 1 ''alice'' 0 7),
           EvChanSend ex_key (ex_conn 1 ''alice'' 0 7),
           EvOpenConnection DirInbound False [(273, ''198.51.100.2:4001''), (461, [])],
           EvSetPeer 7 ''alice'',
           EvAddConn (ex_session 2 1 ''alice'' 0) (ex_conn 2 ''alice'' 0 7)],
         holePunching =
           [ex_key \<mapsto> \<lparr>connCh = [ex_conn 1 ''alice'' 0 7], fulfilled = True\<rparr>]\<rparr>) \<and>
   sendsOn ex_key (trace (snd (snd (AcceptCalls (Suc (Suc 0)) ex_externals
      (ex_listener None ex_rcmgr)
      [RawAccepted (ex_session 1 1 ''alice'' 0), RawAccepted (ex_session 2 1 ''alice'' 0)]
      ex_state)))) = [ex_conn 1 ''alice'' 0 7]"
  using rendezvous_exclusivity
      [where ext = ex_externals and l = "ex_listener None ex_rcmgr" and s = ex_state
         and q = "ex_session 1 1 ''alice'' 0" and c = "ex_conn 1 ''alice'' 0 7"
         and rec = "\<lparr>connCh = [], fulfilled = False\<rparr>"
         and rest = "[RawAccepted (ex_session 2 1 ''alice'' 0)]"
         and trw = "[EvOpenConnection DirInbound False [(273, ''198.51.100.2:4001''), (461, [])],
                     EvSetPeer 7 ''alice'']"
         and trg = "[EvOpenConnection DirInbound False [(273, ''198.51.100.2:4001''), (461, [])],
                     EvSetPeer 7 ''alice'',
                     EvAddConn (ex_session 1 1 ''alice'' 0) (ex_conn 1 ''alice'' 0 7)]"
         and k = ex_key and n = "Suc (Suc 0)" and si = ex_state
         and rs = "[RawAccepted (ex_session 1 1 ''alice'' 0), RawAccepted (ex_session 2 1 ''alice'' 0)]"]
    rendezvous_exclusivity
      [where ext = ex_externals and l = "ex_listener None ex_rcmgr"
         and s = "\<lparr>trace =
             [EvOpenConnection DirInbound False [(273, ''198.51.100.2:4001''), (461, [])],
              EvSetPeer 7 ''alice'',
              EvAddConn (ex_session 1 1 ''alice'' 0) (ex_conn 1 ''alice'' 0 7),
              EvChanSend ex_key (ex_conn 1 ''alice'' 0 7)],
            holePunching =
              [ex_key \<mapsto> \<lparr>connCh = [ex_conn 1 ''alice'' 0 7], fulfilled = True\<rparr>]\<rparr>"
         and q = "ex_session 2 1 ''alice'' 0" and c = "ex_conn 2 ''alice'' 0 7"
         and rec = "\<lparr>connCh = [ex_conn 1 ''alice'' 0 7], fulfilled = True\<rparr>"
         and rest = "[]"
         and trw = "[EvOpenConnection DirInbound False [(273, ''198.51.100.2:4001''), (461, [])],
                     EvSetPeer 7 ''alice'',
                     EvAddConn (ex_session 1 1 ''alice'' 0) (ex_conn 1 ''alice'' 0 7),
                     EvChanSend ex_key (ex_conn 1 ''alice'' 0 7),
                     EvOpenConnection DirInbound False [(273, ''198.51.100.2:4001''), (461, [])],
                     EvSetPeer 7 ''alice'']"
         and trg = "[EvOpenConnection DirInbound False [(273, ''198.51.100.2:4001''), (461, [])],
                     EvSetPeer 7 ''alice'',
                     EvAddConn (ex_session 1 1 ''alice'' 0) (ex_conn 1 ''alice'' 0 7),
                     EvChanSend ex_key (ex_conn 1 ''alice'' 0 7),
                     EvOpenConnection DirInbound False [(273, ''198.51.100.2:4001''), (461, [])],
                     EvSetPeer 7 ''alice'',
                     EvAddConn (ex_session 2 1 ''alice'' 0) (ex_conn 2 ''alice'' 0 7)]"
         and k = ex_key and n = 0 and si = ex_state and rs = "[]"]
  by (simp add: ex_defs wrap_defs acceptConn_def gated_def holePunchOrReturn_def sendsOn_def)

subsection \<open>The table of local multiaddresses\<close>








section \<open>Dialing through a relay\<close>



text \<open>
  C4 (amended). On every path of Dial that returns an error: when no scope could be
  opened, Dial made that one call only; otherwise the scope is released exactly once,
  as the last call before the return. A raw connection exists only when the raw dial
  succeeded, and then the error is the upgrader's: Dial itself makes no call that
  closes the raw connection, which is closed before the return exactly when the
  upgrader closed it.
\<close>

theorem Dial_failure_cleanup:
  assumes "fst (Dial ext c ctx a p tr) = DialError err"
  shows
  "\<exists>new. snd (Dial ext c ctx a p tr) = tr @ EvOpenConnection DirOutbound False a # new \<and>
     (case OpenConnection (host_ResourceManager c) tr DirOutbound False a of
        Inl e \<Rightarrow> new = []
      | Inr sc \<Rightarrow>
          doneCalls new = [sc] \<and> last new = EvDone sc \<and>
          (case SetPeer ext (tr @ [EvOpenConnection DirOutbound False a]) sc p of
             Some e \<Rightarrow> new = [EvSetPeer sc p, EvDone sc]
           | None \<Rightarrow>
               (case dial c (tr @ [EvOpenConnection DirOutbound False a, EvSetPeer sc p]) ctx a p of
                  Inl e \<Rightarrow> new = [EvSetPeer sc p, EvDial ctx a p, EvDone sc]
                | Inr rc \<Rightarrow>
                    (\<exists>closed.
                       Upgrade (upgrader c)
                         (tr @ [EvOpenConnection DirOutbound False a, EvSetPeer sc p,
                                EvDial ctx a p, EvTagHop rc])
                         ctx rc DirOutbound p sc = UpgradeError err closed \<and>
                       new = [EvSetPeer sc p, EvDial ctx a p, EvTagHop rc,
                              EvUpgrade ctx rc DirOutbound p sc]
                             @ (if closed then [EvUpgraderClosedRaw rc] else [])
                             @ [EvDone sc] \<and>
                       (EvUpgraderClosedRaw rc \<in> set new) = closed))))"
proof (cases "OpenConnection (host_ResourceManager c) tr DirOutbound False a")
  case (Inl e)
  then show ?thesis by (simp add: Dial_def)
next
  case (Inr sc)
  note op = Inr
  show ?thesis
  proof (cases "SetPeer ext (tr @ [EvOpenConnection DirOutbound False a]) sc p")
    case (Some e)
    with op show ?thesis by (simp add: Dial_def dialAndUpgrade_def)
  next
    case None
    note sp = None
    show ?thesis
    proof (cases "dial c (tr @ [EvOpenConnection DirOutbound False a, EvSetPeer sc p]) ctx a p")
      case (Inl e)
      with op sp show ?thesis by (simp add: Dial_def dialAndUpgrade_def)
    next
      case (Inr rc)
      note di = Inr
      show ?thesis
      proof (cases "Upgrade (upgrader c)
                         (tr @ [EvOpenConnection DirOutbound False a, EvSetPeer sc p,
                                EvDial ctx a p, EvTagHop rc])
                         ctx rc DirOutbound p sc")
        case (UpgradeError e closed)
        with op sp di assms show ?thesis
          by (cases closed) (simp_all add: Dial_def dialAndUpgrade_def)
      next
        case (UpgradeOK stat)
        with op sp di assms show ?thesis
          by (cases stat) (simp_all add: Dial_def dialAndUpgrade_def)
      qed
    qed
  qed
qed

theorem Dial_failure_cleanup_witness:
  "snd (Dial ex_externals (ex_client ex_rcmgr) 0 ex_relay_addr ''frank'' [])
     = [EvOpenConnection DirOutbound False ex_relay_addr, EvSetPeer 7 ''frank'',
        EvDial 0 ex_relay_addr ''frank'', EvTagHop 3, EvUpgrade 0 3 DirOutbound ''frank'' 7,
        EvUpgraderClosedRaw 3, EvDone 7] \<and>
   snd (Dial ex_externals (ex_client ex_rcmgr) 0 ex_relay_addr ''offline'' [])
     = [EvOpenConnection DirOutbound False ex_relay_addr, EvSetPeer 7 ''offline'',
        EvDial 0 ex_relay_addr ''offline'', EvDone 7]"
proof -
  have f: "fst (Dial ex_externals (ex_client ex_rcmgr) 0 ex_relay_addr ''frank'' [])
      = DialError ''handshake failed''"
    by (simp add: ex_defs Dial_def dialAndUpgrade_def)
  have g: "fst (Dial ex_externals (ex_client ex_rcmgr) 0 ex_relay_addr ''offline'' [])
      = DialError ''no reservation''"
    by (simp add: ex_defs Dial_def dialAndUpgrade_def)
  show ?thesis
    using Dial_failure_cleanup [OF f] Dial_failure_cleanup [OF g]
    by (simp add: ex_defs Dial_def dialAndUpgrade_def)
qed

text \<open>
  The claim as first stated does not hold: when the raw dial succeeds and the upgrader
  fails without closing the raw connection, Dial returns the error after releasing the
  scope, and no call has closed the raw connection 3.
\<close>

theorem Dial_dangling_raw_session_counterexample:
  "Dial ex_externals (ex_client ex_rcmgr) 0 ex_relay_addr ''eve'' []
     = (DialError ''handshake failed'',
        [EvOpenConnection DirOutbound False ex_relay_addr, EvSetPeer 7 ''eve'',
         EvDial 0 ex_relay_addr ''eve'', EvTagHop 3, EvUpgrade 0 3 DirOutbound ''eve'' 7,
         EvDone 7]) \<and>
   EvUpgraderClosedRaw 3
     \<notin> set (snd (Dial ex_externals (ex_client ex_rcmgr) 0 ex_relay_addr ''eve'' []))"
  by (simp add: ex_defs Dial_def dialAndUpgrade_def)

end
